theory Spec2Isabelle
  imports Main
begin

section \<open>JavaScript values\<close>

text \<open>
  Filter trees, condition values and filter maps are plain JavaScript values as
  \<^verbatim>\<open>JSON.parse\<close> or an object literal builds them.  An object is the list of its own
  properties; a read of a property the object does not have gives \<open>JUndefined\<close>.
  Strings are ASCII.  A finite number is \<open>JNum n\<close>, the number whose value is the
  integer \<open>n\<close>, or \<open>JFrac m e\<close>, the number \<open>m / 2 ^ e\<close> when that is no integer.
\<close>

datatype jsval =
    JUndefined
  | JNull
  | JBool bool
  | JNum int
  | JFrac int nat
  | JStr string
  | JArr "jsval list"
  | JObj "(string \<times> jsval) list"

text \<open>
  What the code throws: \<^verbatim>\<open>new AppError(message, statusCode, context)\<close> of
  error-handler.js, or the engine's own \<open>TypeError\<close> (a property read on
  \<^verbatim>\<open>null\<close>/\<^verbatim>\<open>undefined\<close>, a call of something that is no function).
\<close>

datatype error = AppError string nat string | TypeError | Unmodelled

text \<open>
  The numbers of the source are IEEE doubles.  Their arithmetic and their printing are
  exact, and written out here, on the safe integers: those of magnitude at most
  9007199254740991.  \<open>Unmodelled\<close> is no throw of the code: it is the outcome of a
  computation that needs the sum, the difference, the product or the string of any
  other number, or the numeric value of a string that is not a plain decimal integer,
  and about which nothing is said.
\<close>

definition safeInteger :: "int \<Rightarrow> bool" where
  "safeInteger n = (- 9007199254740991 \<le> n \<and> n \<le> 9007199254740991)"

fun truthy :: "jsval \<Rightarrow> bool" where
  "truthy JUndefined = False"
| "truthy JNull = False"
| "truthy (JBool b) = b"
| "truthy (JNum n) = (n \<noteq> 0)"
| "truthy (JFrac m e) = (m \<noteq> 0)"
| "truthy (JStr s) = (s \<noteq> [])"
| "truthy (JArr vs) = True"
| "truthy (JObj kvs) = True"

fun nullish :: "jsval \<Rightarrow> bool" where
  "nullish JUndefined = True"
| "nullish JNull = True"
| "nullish v = False"

text \<open>\<^verbatim>\<open>v.k\<close> for a value that is neither null nor undefined and a key \<open>k\<close> that no
  prototype defines (field, operator, value, logic, filters).\<close>

fun getProp :: "jsval \<Rightarrow> string \<Rightarrow> jsval" where
  "getProp (JObj kvs) k = (case map_of kvs k of Some v \<Rightarrow> v | None \<Rightarrow> JUndefined)"
| "getProp v k = JUndefined"

subsection \<open>Strings\<close>

definition lower_letters :: string where
  "lower_letters = ''abcdefghijklmnopqrstuvwxyz''"

definition upper_letters :: string where
  "upper_letters = ''ABCDEFGHIJKLMNOPQRSTUVWXYZ''"

definition toUpperCase :: "string \<Rightarrow> string" where
  "toUpperCase s =
     map (\<lambda>c. case map_of (zip lower_letters upper_letters) c of Some u \<Rightarrow> u | None \<Rightarrow> c) s"

definition toLowerCase :: "string \<Rightarrow> string" where
  "toLowerCase s =
     map (\<lambda>c. case map_of (zip upper_letters lower_letters) c of Some l \<Rightarrow> l | None \<Rightarrow> c) s"

text \<open>\<^verbatim>\<open>xs.join(sep)\<close> on an array of strings.\<close>

fun join :: "string \<Rightarrow> string list \<Rightarrow> string" where
  "join sep [] = []"
| "join sep [x] = x"
| "join sep (x # y # ys) = x @ sep @ join sep (y # ys)"

definition dquote :: "string \<Rightarrow> string" where
  "dquote s = CHR 0x22 # s @ [CHR 0x22]"

fun digits :: "nat \<Rightarrow> string" where
  "digits n =
     (if n < 10 then [''0123456789'' ! n]
      else digits (n div 10) @ [''0123456789'' ! (n mod 10)])"

definition num_toString :: "int \<Rightarrow> error + string" where
  "num_toString i =
     (if safeInteger i
      then Inr (if i < 0 then CHR ''-'' # digits (nat (- i)) else digits (nat i))
      else Inl Unmodelled)"

text \<open>Running a function that may throw over an array, as \<^verbatim>\<open>Array.prototype.map\<close>
  does: the first throw ends the whole map.\<close>

fun mapE :: "('a \<Rightarrow> error + 'b) \<Rightarrow> 'a list \<Rightarrow> error + 'b list" where
  "mapE f [] = Inr []"
| "mapE f (x # xs) =
     (case f x of
        Inl e \<Rightarrow> Inl e
      | Inr y \<Rightarrow> (case mapE f xs of Inl e \<Rightarrow> Inl e | Inr ys \<Rightarrow> Inr (y # ys)))"

text \<open>\<^verbatim>\<open>s.toUpperCase()\<close> on an arbitrary value: only a string has the method.\<close>

fun js_toUpperCase :: "jsval \<Rightarrow> error + string" where
  "js_toUpperCase (JStr s) = Inr (toUpperCase s)"
| "js_toUpperCase v = Inl TypeError"

text \<open>The string conversion of a template literal, \<^verbatim>\<open>`${v}`\<close>.  An array joins its
  elements with commas, null and undefined elements as the empty string; a plain
  object is \<^verbatim>\<open>[object Object]\<close> unless an own \<^verbatim>\<open>toString\<close> property (never a
  function in parsed JSON) shadows the inherited method.\<close>

fun js_ToString :: "jsval \<Rightarrow> error + string"
  and js_ToString_elems :: "jsval list \<Rightarrow> error + string list" where
  "js_ToString JUndefined = Inr ''undefined''"
| "js_ToString JNull = Inr ''null''"
| "js_ToString (JBool b) = Inr (if b then ''true'' else ''false'')"
| "js_ToString (JNum n) = num_toString n"
| "js_ToString (JFrac m e) = Inl Unmodelled"
| "js_ToString (JStr s) = Inr s"
| "js_ToString (JArr vs) =
     (case js_ToString_elems vs of Inl e \<Rightarrow> Inl e | Inr ss \<Rightarrow> Inr (join '','' ss))"
| "js_ToString (JObj kvs) =
     (if map_of kvs ''toString'' \<noteq> None then Inl TypeError else Inr ''[object Object]'')"
| "js_ToString_elems [] = Inr []"
| "js_ToString_elems (v # vs) =
     (case (if nullish v then Inr [] else js_ToString v) of
        Inl e \<Rightarrow> Inl e
      | Inr s \<Rightarrow> (case js_ToString_elems vs of Inl e \<Rightarrow> Inl e | Inr ss \<Rightarrow> Inr (s # ss)))"

subsection \<open>Arithmetic\<close>

text \<open>The value of a string of decimal digits, read from the left.\<close>

fun decimalValue :: "nat \<Rightarrow> string \<Rightarrow> nat option" where
  "decimalValue n [] = Some n"
| "decimalValue n (c # cs) =
     (case map_of (zip ''0123456789'' [0, 1, 2, 3, 4, 5, 6, 7, 8, 9]) c of
        None \<Rightarrow> None
      | Some d \<Rightarrow> decimalValue (10 * n + d) cs)"

definition safeNumber :: "int \<Rightarrow> error + int" where
  "safeNumber n = (if safeInteger n then Inr n else Inl Unmodelled)"

text \<open>The numeric value of a string: the empty string is 0, digits with an optional
  minus sign are the integer they write.  (White space, a plus sign, fractions,
  exponents, other radices, the strings that give NaN and those that give the
  negative zero are left out.)\<close>

definition stringToNumber :: "string \<Rightarrow> error + int" where
  "stringToNumber s =
     (case s of
        [] \<Rightarrow> Inr 0
      | c # cs \<Rightarrow>
          if c = CHR ''-'' \<and> cs \<noteq> [] then
            (case decimalValue 0 cs of
               Some n \<Rightarrow> if n = 0 then Inl Unmodelled else safeNumber (- int n)
             | None \<Rightarrow> Inl Unmodelled)
          else
            (case decimalValue 0 s of
               Some n \<Rightarrow> safeNumber (int n)
             | None \<Rightarrow> Inl Unmodelled))"

text \<open>The numeric value of any value, as the operators \<^verbatim>\<open>-\<close> and \<^verbatim>\<open>*\<close> take it.  An
  array or object is first turned into its string; undefined is NaN.\<close>

fun js_ToNumber :: "jsval \<Rightarrow> error + int" where
  "js_ToNumber JUndefined = Inl Unmodelled"
| "js_ToNumber JNull = Inr 0"
| "js_ToNumber (JBool b) = Inr (if b then 1 else 0)"
| "js_ToNumber (JNum n) = safeNumber n"
| "js_ToNumber (JFrac m e) = Inl Unmodelled"
| "js_ToNumber (JStr s) = stringToNumber s"
| "js_ToNumber v =
     (case js_ToString v of Inl e \<Rightarrow> Inl e | Inr s \<Rightarrow> stringToNumber s)"

definition js_minus :: "jsval \<Rightarrow> jsval \<Rightarrow> error + int" where
  "js_minus a b =
     (case js_ToNumber a of
        Inl e \<Rightarrow> Inl e
      | Inr x \<Rightarrow> (case js_ToNumber b of Inl e \<Rightarrow> Inl e | Inr y \<Rightarrow> safeNumber (x - y)))"

text \<open>A product that is zero with a negative factor is the negative zero of the
  doubles, which \<open>JNum\<close> does not tell from zero.\<close>

definition js_times :: "jsval \<Rightarrow> jsval \<Rightarrow> error + int" where
  "js_times a b =
     (case js_ToNumber a of
        Inl e \<Rightarrow> Inl e
      | Inr x \<Rightarrow>
          (case js_ToNumber b of
             Inl e \<Rightarrow> Inl e
           | Inr y \<Rightarrow>
               if x * y = 0 \<and> (x < 0 \<or> y < 0) then Inl Unmodelled
               else safeNumber (x * y)))"

text \<open>\<^verbatim>\<open>a + b\<close>: when either operand is a string, or an array or object (whose
  primitive value is a string), the strings of both are concatenated; otherwise the
  numbers are added.\<close>

fun stringLike :: "jsval \<Rightarrow> bool" where
  "stringLike (JStr s) = True"
| "stringLike (JArr vs) = True"
| "stringLike (JObj kvs) = True"
| "stringLike v = False"

definition js_plus :: "jsval \<Rightarrow> jsval \<Rightarrow> error + jsval" where
  "js_plus a b =
     (if stringLike a \<or> stringLike b then
        (case js_ToString a of
           Inl e \<Rightarrow> Inl e
         | Inr x \<Rightarrow> (case js_ToString b of Inl e \<Rightarrow> Inl e | Inr y \<Rightarrow> Inr (JStr (x @ y))))
      else
        (case js_ToNumber a of
           Inl e \<Rightarrow> Inl e
         | Inr x \<Rightarrow>
             (case js_ToNumber b of
                Inl e \<Rightarrow> Inl e
              | Inr y \<Rightarrow> (case safeNumber (x + y) of Inl e \<Rightarrow> Inl e | Inr z \<Rightarrow> Inr (JNum z)))))"

section \<open>The query builder\<close>

text \<open>
  The query builder is the data service's fluent interface: each primitive returns a
  further composable query.  A query is the sequence of primitive calls made on it so
  far, each with its arguments.
\<close>

datatype call =
    From string
  | Select string
  | SelectAll
  | On string
  | Eq jsval jsval
  | Neq jsval jsval
  | Gt jsval jsval
  | Gte jsval jsval
  | Lt jsval jsval
  | Lte jsval jsval
  | Like jsval jsval
  | Ilike jsval jsval
  | In jsval "jsval list"
  | Is jsval jsval
  | Not jsval string jsval
  | Or string
  | Range int int
  | Order string bool

type_synonym query = "call list"

section \<open>filter-parser.js\<close>

text \<open>\<^verbatim>\<open>map[operator.toUpperCase()] || operator\<close>\<close>

definition operator_map :: "(string \<times> string) list" where
  "operator_map =
     [(''='', ''eq''), (''<>'', ''neq''), (''!='', ''neq''), (''>'', ''gt''), (''>='', ''gte''),
      (''<'', ''lt''), (''<='', ''lte''), (''LIKE'', ''like''), (''ILIKE'', ''ilike''),
      (''IN'', ''in''), (''IS'', ''is''), (''IS NOT'', ''not.is''), (''IS NULL'', ''is''),
      (''IS NOT NULL'', ''not.is'')]"

fun mapOperator :: "jsval \<Rightarrow> error + string" where
  "mapOperator (JStr operator) =
     (case map_of operator_map (toUpperCase operator) of
        Some token \<Rightarrow> Inr token
      | None \<Rightarrow> Inr operator)"
| "mapOperator v = Inl TypeError"

fun formatValue :: "jsval \<Rightarrow> error + string"
  and formatValue_elems :: "jsval list \<Rightarrow> error + string list" where
  "formatValue JNull = Inr ''null''"
| "formatValue (JStr s) = Inr (dquote s)"
| "formatValue (JBool b) = Inr (if b then ''true'' else ''false'')"
| "formatValue (JArr vs) =
     (case formatValue_elems vs of
        Inl e \<Rightarrow> Inl e
      | Inr ss \<Rightarrow> Inr (''('' @ join '','' ss @ '')''))"
| "formatValue JUndefined = Inl TypeError"
| "formatValue (JNum n) = num_toString n"
| "formatValue (JFrac m e) = Inl Unmodelled"
| "formatValue (JObj kvs) =
     (if map_of kvs ''toString'' \<noteq> None then Inl TypeError else Inr ''[object Object]'')"
| "formatValue_elems [] = Inr []"
| "formatValue_elems (v # vs) =
     (case formatValue v of
        Inl e \<Rightarrow> Inl e
      | Inr s \<Rightarrow> (case formatValue_elems vs of Inl e \<Rightarrow> Inl e | Inr ss \<Rightarrow> Inr (s # ss)))"

text \<open>The template
  \<^verbatim>\<open>`${f.field}.${mapOperator(f.operator)}.${formatValue(f.value)}`\<close>,
  which applyFilter writes out twice: for a condition child of an OR group and for
  each child of a nested group.\<close>

definition encodeCondition :: "jsval \<Rightarrow> error + string" where
  "encodeCondition f =
     (if nullish f then Inl TypeError
      else case js_ToString (getProp f ''field'') of
        Inl e \<Rightarrow> Inl e
      | Inr field \<Rightarrow>
          (case mapOperator (getProp f ''operator'') of
             Inl e \<Rightarrow> Inl e
           | Inr token \<Rightarrow>
               (case formatValue (getProp f ''value'') of
                  Inl e \<Rightarrow> Inl e
                | Inr formatted \<Rightarrow> Inr (field @ ''.'' @ token @ ''.'' @ formatted))))"

text \<open>The arrow function mapped over the children of an OR group.\<close>

definition encodeSubFilter :: "jsval \<Rightarrow> error + string" where
  "encodeSubFilter subFilter =
     (if nullish subFilter then Inl TypeError
      else if truthy (getProp subFilter ''field'') \<and> truthy (getProp subFilter ''operator'')
        then encodeCondition subFilter
      else case getProp subFilter ''filters'' of
        JArr fs \<Rightarrow>
          (case mapE encodeCondition fs of Inl e \<Rightarrow> Inl e | Inr ss \<Rightarrow> Inr (join '','' ss))
      | _ \<Rightarrow> Inl TypeError)"

definition applyCondition :: "query \<Rightarrow> jsval \<Rightarrow> error + query" where
  "applyCondition query condition =
     (let field = getProp condition ''field'';
          operator = getProp condition ''operator'';
          value = getProp condition ''value'';
          processedValue =
            (case value of
               JStr s \<Rightarrow>
                 if toLowerCase s = ''true'' \<or> toLowerCase s = ''false''
                 then JBool (toLowerCase s = ''true'') else value
             | _ \<Rightarrow> value)
      in case js_toUpperCase operator of
           Inl e \<Rightarrow> Inl e
         | Inr u \<Rightarrow>
             if u = ''='' then Inr (query @ [Eq field processedValue])
             else if u = ''<>'' \<or> u = ''!='' then Inr (query @ [Neq field processedValue])
             else if u = ''>'' then Inr (query @ [Gt field processedValue])
             else if u = ''>='' then Inr (query @ [Gte field processedValue])
             else if u = ''<'' then Inr (query @ [Lt field processedValue])
             else if u = ''<='' then Inr (query @ [Lte field processedValue])
             else if u = ''LIKE'' then Inr (query @ [Like field processedValue])
             else if u = ''ILIKE'' then Inr (query @ [Ilike field processedValue])
             else if u = ''IN'' then
               Inr (query @ [In field (case processedValue of JArr vs \<Rightarrow> vs | v \<Rightarrow> [v])])
             else if u = ''IS NULL'' then Inr (query @ [Is field JNull])
             else if u = ''IS NOT NULL'' then Inr (query @ [Not field ''is'' JNull])
             else if u = ''IS'' then
               (if processedValue = JNull then Inr (query @ [Is field JNull])
                else Inl (AppError ''IS operator only supports null values'' 400 ''Filter Parser''))
             else if u = ''IS NOT'' then
               (if processedValue = JNull then Inr (query @ [Not field ''is'' JNull])
                else Inl (AppError ''IS NOT operator only supports null values'' 400
                            ''Filter Parser''))
             else
               (case js_ToString operator of
                  Inl e \<Rightarrow> Inl e
                | Inr s \<Rightarrow> Inl (AppError (''Unsupported operator: '' @ s) 400 ''Filter Parser'')))"

function applyFilter :: "query \<Rightarrow> jsval \<Rightarrow> error + query"
  and applyFilter_each :: "query \<Rightarrow> jsval list \<Rightarrow> error + query" where
  "applyFilter query filter' =
     (if \<not> truthy filter' then Inr query
      else if truthy (getProp filter' ''field'') \<and> truthy (getProp filter' ''operator'')
        then applyCondition query filter'
      else if truthy (getProp filter' ''logic'') \<and> truthy (getProp filter' ''filters'') then
        (case getProp filter' ''filters'' of
           JArr filters \<Rightarrow>
             (case filters of
                [] \<Rightarrow> Inr query
              | [subFilter] \<Rightarrow> applyFilter query subFilter
              | _ \<Rightarrow>
                  (case js_toUpperCase (getProp filter' ''logic'') of
                     Inl e \<Rightarrow> Inl e
                   | Inr u \<Rightarrow>
                       if u = ''AND'' then applyFilter_each query filters
                       else if u = ''OR'' then
                         (case mapE encodeSubFilter filters of
                            Inl e \<Rightarrow> Inl e
                          | Inr ss \<Rightarrow> Inr (query @ [Or (join '','' ss)]))
                       else
                         (case js_ToString (getProp filter' ''logic'') of
                            Inl e \<Rightarrow> Inl e
                          | Inr s \<Rightarrow>
                              Inl (AppError (''Unsupported logic operator: '' @ s) 400
                                     ''Filter Parser''))))
         | _ \<Rightarrow> Inl (AppError ''Invalid filter structure'' 400 ''Filter Parser''))
      else Inl (AppError ''Invalid filter structure'' 400 ''Filter Parser''))"
| "applyFilter_each resultQuery [] = Inr resultQuery"
| "applyFilter_each resultQuery (subFilter # rest) =
     (case applyFilter resultQuery subFilter of
        Inl e \<Rightarrow> Inl e
      | Inr q \<Rightarrow> applyFilter_each q rest)"
  by pat_completeness auto
termination
proof -
  have smaller: "size_list size fs < size f" if "getProp f k = JArr fs" for f k fs
  proof (cases f)
    case (JObj kvs)
    with that have "map_of kvs k = Some (JArr fs)"
      by (simp split: option.splits)
    then have "(k, JArr fs) \<in> set kvs"
      by (rule map_of_SomeD)
    then have "size (JArr fs) \<le> size_list (size_prod (\<lambda>_. 0) size) kvs"
      by (induction kvs) auto
    with JObj show ?thesis by simp
  qed (use that in simp_all)
  show ?thesis
    by (relation "measure (\<lambda>x. case x of Inl (q, f) \<Rightarrow> 2 * size f
                                        | Inr (q, fs) \<Rightarrow> 2 * size_list size fs + 1)")
      (auto dest: smaller)
qed

section \<open>data-repository.js\<close>

text \<open>
  The options bag.  \<open>page\<close> and \<open>pageSize\<close> hold whatever the caller passes: numbers, or
  the strings of a URL query as getAll of data-controller.js hands them on; a missing
  property is \<open>JUndefined\<close>, for \<open>orderBy\<close> and \<open>ascending\<close> it is \<open>None\<close>.
\<close>

record options =
  page :: jsval
  pageSize :: jsval
  orderBy :: "string option"
  ascending :: "bool option"

text \<open>The two lines
  \<^verbatim>\<open>const from = (options.page - 1) * options.pageSize;\<close> and
  \<^verbatim>\<open>const to = from + options.pageSize - 1;\<close>
  which select, selectWithFilter and executeView each write out.\<close>

definition rangeBounds :: "jsval \<Rightarrow> jsval \<Rightarrow> error + int \<times> int" where
  "rangeBounds optionsPage optionsPageSize =
     (case js_minus optionsPage (JNum 1) of
        Inl e \<Rightarrow> Inl e
      | Inr d \<Rightarrow>
          (case js_times (JNum d) optionsPageSize of
             Inl e \<Rightarrow> Inl e
           | Inr from \<Rightarrow>
               (case js_plus (JNum from) optionsPageSize of
                  Inl e \<Rightarrow> Inl e
                | Inr s \<Rightarrow>
                    (case js_minus s (JNum 1) of
                       Inl e \<Rightarrow> Inl e
                     | Inr to \<Rightarrow> Inr (from, to)))))"

text \<open>
  Each repository operation is modelled up to the query it awaits.  The filters map
  is the list \<^verbatim>\<open>Object.entries(filters)\<close> enumerates.
\<close>

definition select ::
  "string \<Rightarrow> string \<Rightarrow> (string \<times> jsval) list \<Rightarrow> options \<Rightarrow> error + query" where
  "select tableName columns filters opts =
     (let query = [From tableName, Select columns];
          query = foldl (\<lambda>query (key, value).
                    if value \<noteq> JUndefined \<and> value \<noteq> JNull
                    then query @ [Eq (JStr key) value] else query) query filters
      in case (if truthy (page opts) \<and> truthy (pageSize opts) then
                 (case rangeBounds (page opts) (pageSize opts) of
                    Inl e \<Rightarrow> Inl e
                  | Inr (from, to) \<Rightarrow> Inr (query @ [Range from to]))
               else Inr query) of
           Inl e \<Rightarrow> Inl e
         | Inr query \<Rightarrow>
             Inr (case orderBy opts of
                    Some ob \<Rightarrow>
                      if ob \<noteq> [] then query @ [Order ob (ascending opts \<noteq> Some False)]
                      else query
                  | None \<Rightarrow> query))"

definition selectWithFilter :: "string \<Rightarrow> string \<Rightarrow> jsval \<Rightarrow> options \<Rightarrow> error + query" where
  "selectWithFilter tableName columns filterObject opts =
     (case (if truthy filterObject
            then applyFilter [From tableName, Select columns] filterObject
            else Inr [From tableName, Select columns]) of
        Inl e \<Rightarrow> Inl e
      | Inr query \<Rightarrow>
          (case (if truthy (page opts) \<and> truthy (pageSize opts) then
                   (case rangeBounds (page opts) (pageSize opts) of
                      Inl e \<Rightarrow> Inl e
                    | Inr (from, to) \<Rightarrow> Inr (query @ [Range from to]))
                 else Inr query) of
             Inl e \<Rightarrow> Inl e
           | Inr query \<Rightarrow>
               Inr (case orderBy opts of
                      Some ob \<Rightarrow>
                        if ob \<noteq> [] then query @ [Order ob (ascending opts \<noteq> Some False)]
                        else query
                    | None \<Rightarrow> query)))"

section \<open>view-engine.js\<close>

record join_spec =
  from_table :: string
  from_field :: string
  joinType :: string
  to_table :: string
  to_field :: string

record view_definition =
  join_definition :: "join_spec list"
  allowed_filters :: "string list option"
  is_public :: bool

text \<open>The loop over the join definition; a throw ends it.\<close>

fun applyJoins :: "query \<Rightarrow> join_spec list \<Rightarrow> error + query" where
  "applyJoins query [] = Inr query"
| "applyJoins query (j # rest) =
     (let joinTable = to_table j;
          joinCondition = from_table j @ ''.'' @ from_field j @ ''='' @ joinTable @ ''.'' @ to_field j;
          jt = toLowerCase (joinType j)
      in if jt = ''left'' then
           applyJoins (query @ [Select (''*, '' @ joinTable @ ''(*)''), On joinCondition]) rest
         else if jt = ''right'' then
           Inl (AppError ''Right joins not supported yet'' 400 ''View Engine'')
         else if jt = ''inner'' then
           applyJoins (query @ [Select (''*, '' @ joinTable @ ''!inner(*)''), On joinCondition]) rest
         else Inl (AppError (''Unknown join type: '' @ joinType j) 400 ''View Engine''))"

text \<open>\<^verbatim>\<open>viewDefinition.allowed_filters || []\<close>\<close>

definition allowedFilters :: "view_definition \<Rightarrow> string list" where
  "allowedFilters viewDefinition =
     (case allowed_filters viewDefinition of Some a \<Rightarrow> a | None \<Rightarrow> [])"

definition executeView ::
  "view_definition \<Rightarrow> (string \<times> jsval) list \<Rightarrow> options \<Rightarrow> error + query" where
  "executeView viewDefinition filters opts =
     (case join_definition viewDefinition of
        [] \<Rightarrow> Inl TypeError
      | j0 # _ \<Rightarrow>
          (case applyJoins [From (from_table j0), SelectAll] (join_definition viewDefinition) of
             Inl e \<Rightarrow> Inl e
           | Inr query \<Rightarrow>
               (let query = foldl (\<lambda>query (key, value).
                              if key \<in> set (allowedFilters viewDefinition) \<and>
                                 value \<noteq> JUndefined \<and> value \<noteq> JNull
                              then query @ [Eq (JStr key) value] else query) query filters
                in case (if truthy (page opts) \<and> truthy (pageSize opts) then
                           (case rangeBounds (page opts) (pageSize opts) of
                              Inl e \<Rightarrow> Inl e
                            | Inr (from, to) \<Rightarrow> Inr (query @ [Range from to]))
                         else Inr query) of
                     Inl e \<Rightarrow> Inl e
                   | Inr query \<Rightarrow>
                       Inr (case orderBy opts of
                              Some ob \<Rightarrow>
                                if ob \<noteq> [] then
                                  query @ [Order ob (ascending opts \<noteq> Some False)]
                                else query
                            | None \<Rightarrow> query))))"

section \<open>Filter nodes\<close>

text \<open>The two object shapes of a filter node, as the README and the data model write
  them.\<close>

definition Condition :: "jsval \<Rightarrow> jsval \<Rightarrow> jsval \<Rightarrow> jsval" where
  "Condition field operator value =
     JObj [(''field'', field), (''operator'', operator), (''value'', value)]"

definition Group :: "jsval \<Rightarrow> jsval list \<Rightarrow> jsval" where
  "Group logic filters = JObj [(''logic'', logic), (''filters'', JArr filters)]"

text \<open>The tests by which applyFilter tells a condition from a group.\<close>

definition isCondition :: "jsval \<Rightarrow> bool" where
  "isCondition f = (truthy f \<and> truthy (getProp f ''field'') \<and> truthy (getProp f ''operator''))"

definition isGroup :: "jsval \<Rightarrow> bool" where
  "isGroup f =
     (truthy f \<and> \<not> isCondition f \<and> truthy (getProp f ''logic'') \<and>
      (case getProp f ''filters'' of JArr fs \<Rightarrow> True | _ \<Rightarrow> False))"

section \<open>Vocabulary of the properties\<close>

fun isArray :: "jsval \<Rightarrow> bool" where
  "isArray (JArr vs) = True"
| "isArray v = False"

fun isEq :: "call \<Rightarrow> bool" where
  "isEq (Eq k v) = True"
| "isEq c = False"

fun isRange :: "call \<Rightarrow> bool" where
  "isRange (Range a b) = True"
| "isRange c = False"

text \<open>The closed operator set, upper case.\<close>

definition closed_operators :: "string list" where
  "closed_operators =
     [''='', ''<>'', ''!='', ''>'', ''>='', ''<'', ''<='', ''LIKE'', ''ILIKE'', ''IN'', ''IS'',
      ''IS NOT'', ''IS NULL'', ''IS NOT NULL'']"



text \<open>The token of the operator mapping: the table's entry for the upper-cased
  operator, the operator itself where the table has none.\<close>

definition spec_token :: "string \<Rightarrow> string" where
  "spec_token operator =
     (case map_of operator_map (toUpperCase operator) of
        Some token \<Rightarrow> token
      | None \<Rightarrow> operator)"

text \<open>A condition the OR encoding can write down: field and operator are strings and
  formatValue accepts the value.  Its encoding, in the specification's words, is
  field.token.formattedValue.\<close>

definition encodable :: "jsval \<Rightarrow> bool" where
  "encodable c =
     (case (getProp c ''field'', getProp c ''operator'', formatValue (getProp c ''value'')) of
        (JStr field, JStr operator, Inr formattedValue) \<Rightarrow> True
      | _ \<Rightarrow> False)"

definition spec_encoded_condition :: "jsval \<Rightarrow> string" where
  "spec_encoded_condition c =
     (case (getProp c ''field'', getProp c ''operator'', formatValue (getProp c ''value'')) of
        (JStr field, JStr operator, Inr formattedValue) \<Rightarrow>
          field @ ''.'' @ spec_token operator @ ''.'' @ formattedValue
      | _ \<Rightarrow> [])"

text \<open>A child of an OR group is a condition, or a nested group of conditions; a nested
  group is flattened into its children's encodings, joined by commas.\<close>

definition or_child_ok :: "jsval \<Rightarrow> bool" where
  "or_child_ok c =
     (if isCondition c then encodable c
      else case getProp c ''filters'' of JArr fs \<Rightarrow> list_all encodable fs | _ \<Rightarrow> False)"

definition spec_encoded_child :: "jsval \<Rightarrow> string" where
  "spec_encoded_child c =
     (if isCondition c then spec_encoded_condition c
      else case getProp c ''filters'' of
             JArr fs \<Rightarrow> join '','' (map spec_encoded_condition fs)
           | _ \<Rightarrow> [])"

text \<open>The calls the pagination and ordering blocks add to a query.\<close>

definition rangeCalls :: "options \<Rightarrow> error + query" where
  "rangeCalls opts =
     (if truthy (page opts) \<and> truthy (pageSize opts) then
        (case rangeBounds (page opts) (pageSize opts) of
           Inl e \<Rightarrow> Inl e
         | Inr (from, to) \<Rightarrow> Inr [Range from to])
      else Inr [])"

definition orderCalls :: "options \<Rightarrow> query" where
  "orderCalls opts =
     (case orderBy opts of
        Some ob \<Rightarrow> if ob \<noteq> [] then [Order ob (ascending opts \<noteq> Some False)] else []
      | None \<Rightarrow> [])"

text \<open>The equality conditions a filters map contributes, given which keys pass.\<close>

definition eqCalls :: "(string \<Rightarrow> bool) \<Rightarrow> (string \<times> jsval) list \<Rightarrow> query" where
  "eqCalls allowed filters =
     map (\<lambda>(key, value). Eq (JStr key) value)
       (filter (\<lambda>(key, value). allowed key \<and> value \<noteq> JUndefined \<and> value \<noteq> JNull) filters)"

text \<open>The view of the README, with the allowlist of the scenario.\<close>

definition scenario_view :: view_definition where
  "scenario_view =
     \<lparr>join_definition =
        [\<lparr>from_table = ''users'', from_field = ''id'', joinType = ''left'',
          to_table = ''tasks'', to_field = ''assigned_to''\<rparr>],
      allowed_filters = Some [''tasks.status''],
      is_public = True\<rparr>"

definition no_options :: options where
  "no_options =
     \<lparr>page = JUndefined, pageSize = JUndefined, orderBy = None, ascending = None\<rparr>"

section \<open>Properties of the filter engine\<close>

declare applyFilter.simps [simp del]

lemmas case_consts = toUpperCase_def toLowerCase_def lower_letters_def upper_letters_def

lemma applyFilter_falsy: "\<not> truthy f \<Longrightarrow> applyFilter q f = Inr q"
  by (simp add: applyFilter.simps)

lemma applyFilter_isCondition: "isCondition c \<Longrightarrow> applyFilter q c = applyCondition q c"
  by (simp add: applyFilter.simps(1) isCondition_def)

lemma applyFilter_isGroup:
  assumes "isGroup g" and "getProp g ''filters'' = JArr fs"
  shows "applyFilter q g =
     (case fs of
        [] \<Rightarrow> Inr q
      | [c] \<Rightarrow> applyFilter q c
      | _ \<Rightarrow>
          (case js_toUpperCase (getProp g ''logic'') of
             Inl e \<Rightarrow> Inl e
           | Inr u \<Rightarrow>
               if u = ''AND'' then applyFilter_each q fs
               else if u = ''OR'' then
                 (case mapE encodeSubFilter fs of
                    Inl e \<Rightarrow> Inl e
                  | Inr ss \<Rightarrow> Inr (q @ [Or (join '','' ss)]))
               else
                 (case js_ToString (getProp g ''logic'') of
                    Inl e \<Rightarrow> Inl e
                  | Inr s \<Rightarrow>
                      Inl (AppError (''Unsupported logic operator: '' @ s) 400
                             ''Filter Parser''))))"
  using assms by (subst applyFilter.simps(1)) (auto simp add: isGroup_def isCondition_def)

lemma isCondition_Condition: "isCondition (Condition f op v) = (truthy f \<and> truthy op)"
  by (simp add: isCondition_def Condition_def)

lemma isGroup_Group: "isGroup (Group l fs) = truthy l"
  by (simp add: isGroup_def isCondition_def Group_def)

lemma getProp_Group: "getProp (Group l fs) ''logic'' = l" "getProp (Group l fs) ''filters'' = JArr fs"
  by (simp_all add: Group_def)

lemma getProp_Condition:
  "getProp (Condition f op v) ''field'' = f"
  "getProp (Condition f op v) ''operator'' = op"
  "getProp (Condition f op v) ''value'' = v"
  by (simp_all add: Condition_def)

text \<open>
  C5.  applyFilter is the identity on degenerate inputs: a null (or undefined) filter
  leaves the query unchanged; so does a group whose filters list is empty; a group
  with exactly one child, whatever its logic, gives what applying that child gives.
\<close>

theorem applyFilter_degenerate_identity:
  "applyFilter q JNull = Inr q \<and> applyFilter q JUndefined = Inr q \<and>
   (isGroup g0 \<and> getProp g0 ''filters'' = JArr [] \<longrightarrow> applyFilter q g0 = Inr q) \<and>
   (isGroup g1 \<and> getProp g1 ''filters'' = JArr [c] \<longrightarrow> applyFilter q g1 = applyFilter q c)"
  by (simp add: applyFilter_falsy applyFilter_isGroup)

theorem applyFilter_degenerate_identity_witness:
  "isGroup (Group (JStr ''OR'') []) \<and>
   applyFilter [From ''t''] (Group (JStr ''OR'') []) = Inr [From ''t''] \<and>
   isGroup (Group (JNum 7) [Condition (JStr ''a'') (JStr ''='') (JNum 1)]) \<and>
   applyFilter [From ''t''] (Group (JNum 7) [Condition (JStr ''a'') (JStr ''='') (JNum 1)])
     = Inr [From ''t'', Eq (JStr ''a'') (JNum 1)]"
proof -
  let ?c = "Condition (JStr ''a'') (JStr ''='') (JNum 1)"
  have c: "applyFilter [From ''t''] ?c = Inr [From ''t'', Eq (JStr ''a'') (JNum 1)]"
    by (simp add: applyFilter_isCondition isCondition_Condition applyCondition_def
        getProp_Condition case_consts)
  show ?thesis
    using applyFilter_degenerate_identity
      [of "[From ''t'']" "Group (JStr ''OR'') []" "Group (JNum 7) [?c]" ?c]
    by (simp add: isGroup_Group getProp_Group c)
qed

text \<open>
  C4, as stated, fails: the length of the filters list is looked at before the
  logic.  A group with logic XOR and no child returns the query unchanged, and with
  one child it applies that child.
\<close>

theorem unsupported_logic_counterexample:
  "isGroup (Group (JStr ''XOR'') []) \<and> toUpperCase ''XOR'' \<noteq> ''AND'' \<and> toUpperCase ''XOR'' \<noteq> ''OR'' \<and>
   applyFilter [] (Group (JStr ''XOR'') []) = Inr [] \<and>
   applyFilter [] (Group (JStr ''XOR'') [Condition (JStr ''a'') (JStr ''='') (JNum 1)])
     = Inr [Eq (JStr ''a'') (JNum 1)]"
  by (simp add: isGroup_Group applyFilter_isGroup getProp_Group applyFilter_isCondition
      isCondition_Condition applyCondition_def getProp_Condition case_consts)

text \<open>
  C4, amended.  A group with two or more children whose logic is, in upper case,
  neither AND nor OR fails with the error "Unsupported logic operator".
\<close>

theorem unsupported_logic_two_or_more:
  assumes "isGroup g" and "getProp g ''logic'' = JStr l"
    and "toUpperCase l \<noteq> ''AND''" and "toUpperCase l \<noteq> ''OR''"
    and "getProp g ''filters'' = JArr fs" and "2 \<le> length fs"
  shows "applyFilter q g =
           Inl (AppError (''Unsupported logic operator: '' @ l) 400 ''Filter Parser'')"
proof -
  from \<open>2 \<le> length fs\<close> obtain a b rest where "fs = a # b # rest"
    by (cases fs; cases "tl fs") auto
  with assms show ?thesis
    by (simp add: applyFilter_isGroup)
qed

theorem unsupported_logic_two_or_more_witness:
  "applyFilter [] (Group (JStr ''xor'') [JNull, JNull])
     = Inl (AppError ''Unsupported logic operator: xor'' 400 ''Filter Parser'')"
  using unsupported_logic_two_or_more
    [of "Group (JStr ''xor'') [JNull, JNull]" "''xor''" "[JNull, JNull]" "[]"]
  by (simp add: isGroup_Group getProp_Group case_consts)

text \<open>
  C8.  A condition whose operator is, in upper case, outside the closed operator set
  fails with the error "Unsupported operator"; the operator between does so for every
  field and value.
\<close>

theorem unsupported_operator:
  "(isCondition c \<and> getProp c ''operator'' = JStr op \<and> toUpperCase op \<notin> set closed_operators
      \<longrightarrow> applyFilter q c = Inl (AppError (''Unsupported operator: '' @ op) 400 ''Filter Parser'')) \<and>
   (truthy field \<longrightarrow> applyFilter q (Condition field (JStr ''between'') v)
      = Inl (AppError ''Unsupported operator: between'' 400 ''Filter Parser''))"
  by (simp add: applyFilter_isCondition isCondition_Condition applyCondition_def
      getProp_Condition closed_operators_def Let_def case_consts)

theorem unsupported_operator_witness:
  "applyFilter [] (Condition (JStr ''age'') (JStr ''Between'') (JArr [JNum 1, JNum 9]))
     = Inl (AppError ''Unsupported operator: Between'' 400 ''Filter Parser'') \<and>
   applyFilter [] (Condition (JStr ''age'') (JStr ''between'') JNull)
     = Inl (AppError ''Unsupported operator: between'' 400 ''Filter Parser'')"
  using unsupported_operator [of "Condition (JStr ''age'') (JStr ''Between'') (JArr [JNum 1, JNum 9])"
      "''Between''" "[]" "JStr ''age''" JNull]
  by (simp add: isCondition_Condition getProp_Condition closed_operators_def case_consts)

subsection \<open>The OR encoding\<close>

lemma truthy_getProp: "truthy (getProp c k) \<Longrightarrow> \<not> nullish c"
  by (cases c) simp_all

lemma mapOperator_token: "mapOperator (JStr operator) = Inr (spec_token operator)"
  by (simp add: spec_token_def split: option.splits)

lemma encodeCondition_encodable:
  "encodable c \<Longrightarrow> encodeCondition c = Inr (spec_encoded_condition c)"
  by (cases c)
    (auto simp add: encodable_def encodeCondition_def spec_encoded_condition_def
      mapOperator_token simp del: mapOperator.simps split: jsval.splits sum.splits)

lemma mapE_encodable:
  "list_all encodable fs \<Longrightarrow> mapE encodeCondition fs = Inr (map spec_encoded_condition fs)"
  by (induction fs) (simp_all add: encodeCondition_encodable)

lemma encodeSubFilter_ok:
  assumes "or_child_ok c"
  shows "encodeSubFilter c = Inr (spec_encoded_child c)"
proof (cases "isCondition c")
  case True
  with assms have "encodable c"
    by (simp add: or_child_ok_def)
  with True show ?thesis
    by (auto simp add: encodeSubFilter_def spec_encoded_child_def isCondition_def
        encodeCondition_encodable dest: truthy_getProp)
next
  case False
  with assms obtain fs where fs: "getProp c ''filters'' = JArr fs" "list_all encodable fs"
    by (auto simp add: or_child_ok_def split: jsval.splits)
  then have "\<not> nullish c"
    by (cases c) simp_all
  moreover from this False
  have "\<not> (truthy (getProp c ''field'') \<and> truthy (getProp c ''operator''))"
    by (cases c) (simp_all add: isCondition_def)
  ultimately show ?thesis
    using False fs by (auto simp add: encodeSubFilter_def spec_encoded_child_def mapE_encodable)
qed

lemma mapE_encodeSubFilter_ok:
  "list_all or_child_ok cs \<Longrightarrow> mapE encodeSubFilter cs = Inr (map spec_encoded_child cs)"
  by (induction cs) (simp_all add: encodeSubFilter_ok)

lemma mapE_append:
  "mapE f (xs @ ys) =
     (case mapE f xs of
        Inl e \<Rightarrow> Inl e
      | Inr a \<Rightarrow> (case mapE f ys of Inl e \<Rightarrow> Inl e | Inr b \<Rightarrow> Inr (a @ b)))"
  by (induction xs) (simp_all split: sum.splits)

lemma mapE_cong_at:
  "f x = f y \<Longrightarrow> mapE f (pre @ x # post) = mapE f (pre @ y # post)"
  by (simp add: mapE_append split: sum.splits)

lemma toUpperCase_Nil: "toUpperCase [] = []"
  by (simp add: toUpperCase_def)

lemma applyFilter_OR:
  assumes "isGroup g" and "getProp g ''logic'' = JStr l" and "toUpperCase l = ''OR''"
    and "getProp g ''filters'' = JArr cs" and "2 \<le> length cs"
  shows "applyFilter q g =
           (case mapE encodeSubFilter cs of
              Inl e \<Rightarrow> Inl e
            | Inr ss \<Rightarrow> Inr (q @ [Or (join '','' ss)]))"
proof -
  from \<open>2 \<le> length cs\<close> obtain a b rest where "cs = a # b # rest"
    by (cases cs; cases "tl cs") auto
  with assms show ?thesis
    by (simp add: applyFilter_isGroup)
qed

lemma applyFilter_Group_OR:
  assumes "toUpperCase l = ''OR''" and "2 \<le> length cs"
  shows "applyFilter q (Group (JStr l) cs) =
           (case mapE encodeSubFilter cs of
              Inl e \<Rightarrow> Inl e
            | Inr ss \<Rightarrow> Inr (q @ [Or (join '','' ss)]))"
proof -
  from assms(1) have "l \<noteq> []"
    by (auto simp add: toUpperCase_Nil)
  then have "isGroup (Group (JStr l) cs)"
    by (simp add: isGroup_Group)
  with assms show ?thesis
    by (simp add: applyFilter_OR [where l = l and cs = cs] getProp_Group)
qed

text \<open>
  C1, as stated, fails one level deeper.  For the tree
  OR[a = 1, AND[b = 2, OR[c = 3, d = 4]]] no call of the disjunction primitive is
  made: the children of the nested group are written with the condition template
  without a look at their shape, and the read of the operator that the inner group
  does not have throws.
\<close>

theorem or_group_nested_counterexample:
  "applyFilter []
     (Group (JStr ''OR'')
        [Condition (JStr ''a'') (JStr ''='') (JNum 1),
         Group (JStr ''AND'')
           [Condition (JStr ''b'') (JStr ''='') (JNum 2),
            Group (JStr ''OR'')
              [Condition (JStr ''c'') (JStr ''='') (JNum 3),
               Condition (JStr ''d'') (JStr ''='') (JNum 4)]]])
     = Inl TypeError"
proof -
  have "mapE encodeSubFilter
     [Condition (JStr ''a'') (JStr ''='') (JNum 1),
         Group (JStr ''AND'')
           [Condition (JStr ''b'') (JStr ''='') (JNum 2),
            Group (JStr ''OR'')
              [Condition (JStr ''c'') (JStr ''='') (JNum 3),
               Condition (JStr ''d'') (JStr ''='') (JNum 4)]]] = Inl TypeError"
    by (simp add: encodeSubFilter_def encodeCondition_def Condition_def Group_def
        operator_map_def num_toString_def safeInteger_def case_consts)
  then show ?thesis
    by (simp add: applyFilter_Group_OR case_consts del: mapE.simps)
qed

text \<open>
  C1, amended.  An OR group of two or more children, each a condition or a nested
  group whose own children are all conditions (fields and operators strings, values
  that formatValue writes), makes exactly one call of the
  disjunction primitive.  Its argument is the comma-joined list of the children's
  encodings: field.token.formattedValue for a condition, the comma-joined encodings of
  its own children for a nested group.  The logic of a nested group plays no part.
  The tree of the scenario gives the equality on status followed by the disjunction
  of the two role conditions.
\<close>

theorem or_group_single_disjunction:
  "(isGroup g \<and> getProp g ''logic'' = JStr l \<and> toUpperCase l = ''OR'' \<and>
    getProp g ''filters'' = JArr cs \<and> 2 \<le> length cs \<and> list_all or_child_ok cs
      \<longrightarrow> applyFilter q g = Inr (q @ [Or (join '','' (map spec_encoded_child cs))])) \<and>
   (toUpperCase l = ''OR'' \<and> pre @ post \<noteq> []
      \<longrightarrow> applyFilter q (Group (JStr l) (pre @ Group l1 fs # post))
          = applyFilter q (Group (JStr l) (pre @ Group l2 fs # post))) \<and>
   applyFilter q
     (Group (JStr ''AND'')
        [Condition (JStr ''status'') (JStr ''='') (JStr ''active''),
         Group (JStr ''OR'')
           [Condition (JStr ''role'') (JStr ''='') (JStr ''admin''),
            Condition (JStr ''role'') (JStr ''='') (JStr ''moderator'')]])
     = Inr (q @ [Eq (JStr ''status'') (JStr ''active''),
                 Or ''role.eq.\"admin\",role.eq.\"moderator\"''])"
proof (intro conjI impI)
  assume "isGroup g \<and> getProp g ''logic'' = JStr l \<and> toUpperCase l = ''OR'' \<and>
    getProp g ''filters'' = JArr cs \<and> 2 \<le> length cs \<and> list_all or_child_ok cs"
  then show "applyFilter q g = Inr (q @ [Or (join '','' (map spec_encoded_child cs))])"
    by (simp add: applyFilter_OR mapE_encodeSubFilter_ok)
next
  assume a: "toUpperCase l = ''OR'' \<and> pre @ post \<noteq> []"
  then have len: "2 \<le> length (pre @ x # post)" for x :: jsval
    by (cases pre; cases post) simp_all
  have "encodeSubFilter (Group l1 fs) = encodeSubFilter (Group l2 fs)"
    by (simp add: encodeSubFilter_def Group_def)
  then have "mapE encodeSubFilter (pre @ Group l1 fs # post)
      = mapE encodeSubFilter (pre @ Group l2 fs # post)"
    by (rule mapE_cong_at)
  with a len show "applyFilter q (Group (JStr l) (pre @ Group l1 fs # post))
      = applyFilter q (Group (JStr l) (pre @ Group l2 fs # post))"
    by (simp add: applyFilter_Group_OR)
next
  let ?a = "Condition (JStr ''role'') (JStr ''='') (JStr ''admin'')"
  let ?m = "Condition (JStr ''role'') (JStr ''='') (JStr ''moderator'')"
  let ?s = "Condition (JStr ''status'') (JStr ''='') (JStr ''active'')"
  have enc: "mapE encodeSubFilter [?a, ?m] = Inr [''role.eq.\"admin\"'', ''role.eq.\"moderator\"'']"
    by (simp add: encodeSubFilter_def encodeCondition_def Condition_def operator_map_def
        dquote_def case_consts)
  have disj: "applyFilter q' (Group (JStr ''OR'') [?a, ?m])
      = Inr (q' @ [Or ''role.eq.\"admin\",role.eq.\"moderator\"''])" for q'
    by (simp add: applyFilter_Group_OR enc case_consts del: mapE.simps)
  have st: "applyFilter q ?s = Inr (q @ [Eq (JStr ''status'') (JStr ''active'')])"
    by (simp add: applyFilter_isCondition isCondition_Condition applyCondition_def
        getProp_Condition case_consts)
  show "applyFilter q (Group (JStr ''AND'') [?s, Group (JStr ''OR'') [?a, ?m]])
     = Inr (q @ [Eq (JStr ''status'') (JStr ''active''),
                 Or ''role.eq.\"admin\",role.eq.\"moderator\"''])"
    by (simp add: applyFilter_isGroup isGroup_Group getProp_Group st disj case_consts)
qed

theorem or_group_single_disjunction_witness:
  "applyFilter [From ''users'']
     (Group (JStr ''or'')
        [Condition (JStr ''age'') (JStr ''>='') (JNum 18),
         Group (JStr ''AND'')
           [Condition (JStr ''role'') (JStr ''in'') (JArr [JStr ''a'', JNull]),
            Condition (JStr ''ok'') (JStr ''is not'') (JBool True)]])
     = Inr [From ''users'', Or ''age.gte.18,role.in.(\"a\",null),ok.not.is.true''] \<and>
   applyFilter [From ''users'']
     (Group (JStr ''or'')
        [Condition (JStr ''age'') (JStr ''>='') (JNum 18),
         Group (JStr ''OR'')
           [Condition (JStr ''role'') (JStr ''in'') (JArr [JStr ''a'', JNull]),
            Condition (JStr ''ok'') (JStr ''is not'') (JBool True)]])
     = Inr [From ''users'', Or ''age.gte.18,role.in.(\"a\",null),ok.not.is.true'']"
proof -
  let ?c1 = "Condition (JStr ''age'') (JStr ''>='') (JNum 18)"
  let ?n = "[Condition (JStr ''role'') (JStr ''in'') (JArr [JStr ''a'', JNull]),
            Condition (JStr ''ok'') (JStr ''is not'') (JBool True)]"
  let ?g = "Group (JStr ''or'') [?c1, Group (JStr ''AND'') ?n]"
  have up: "toUpperCase ''or'' = ''OR''"
    by (simp add: case_consts)
  have ok: "list_all or_child_ok [?c1, Group (JStr ''AND'') ?n]"
    by (simp add: or_child_ok_def isCondition_def encodable_def Condition_def Group_def
        num_toString_def safeInteger_def)
  have str: "join '','' (map spec_encoded_child [?c1, Group (JStr ''AND'') ?n])
      = ''age.gte.18,role.in.(\"a\",null),ok.not.is.true''"
    by (simp add: spec_encoded_child_def spec_encoded_condition_def spec_token_def
        isCondition_def Condition_def Group_def operator_map_def dquote_def num_toString_def safeInteger_def
        case_consts)
  note inst = or_group_single_disjunction
      [of ?g "''or''" "[?c1, Group (JStr ''AND'') ?n]" "[From ''users'']" "[?c1]" "[]"
        "JStr ''AND''" ?n "JStr ''OR''"]
  have g: "isGroup ?g \<and> getProp ?g ''logic'' = JStr ''or'' \<and> toUpperCase ''or'' = ''OR'' \<and>
      getProp ?g ''filters'' = JArr [?c1, Group (JStr ''AND'') ?n] \<and>
      2 \<le> length [?c1, Group (JStr ''AND'') ?n] \<and>
      list_all or_child_ok [?c1, Group (JStr ''AND'') ?n]"
    using up ok by (simp add: isGroup_Group getProp_Group)
  from inst [THEN conjunct1] g
  have first: "applyFilter [From ''users''] ?g
      = Inr ([From ''users''] @
             [Or (join '','' (map spec_encoded_child [?c1, Group (JStr ''AND'') ?n]))])"
    by (rule mp)
  from inst [THEN conjunct2, THEN conjunct1] up
  have second: "applyFilter [From ''users''] ?g
      = applyFilter [From ''users''] (Group (JStr ''or'') [?c1, Group (JStr ''OR'') ?n])"
    by simp
  from first second show ?thesis
    by (simp only: str append.simps)
qed

section \<open>Properties of query composition\<close>

lemma foldl_eqCalls:
  "foldl (\<lambda>query (key, value).
            if allowed key \<and> value \<noteq> JUndefined \<and> value \<noteq> JNull
            then query @ [Eq (JStr key) value] else query) q filters
   = q @ eqCalls allowed filters"
proof (induction filters arbitrary: q)
  case Nil
  show ?case by (simp add: eqCalls_def)
next
  case (Cons kv filters)
  obtain k v where kv: "kv = (k, v)" by (cases kv)
  show ?case
    by (simp add: kv Cons.IH) (simp add: eqCalls_def)
qed

lemma foldl_eqCalls_all:
  "foldl (\<lambda>query (key, value).
            if value \<noteq> JUndefined \<and> value \<noteq> JNull
            then query @ [Eq (JStr key) value] else query) q filters
   = q @ eqCalls (\<lambda>key. True) filters"
  using foldl_eqCalls [of "\<lambda>key. True" q filters] by simp

lemma pagination_block:
  "(case (if truthy (page opts) \<and> truthy (pageSize opts) then
            (case rangeBounds (page opts) (pageSize opts) of
               Inl e \<Rightarrow> Inl e
             | Inr (from, to) \<Rightarrow> Inr (query @ [Range from to]))
          else Inr query) of
      Inl e \<Rightarrow> Inl e
    | Inr query \<Rightarrow>
        Inr (case orderBy opts of
               Some ob \<Rightarrow>
                 if ob \<noteq> [] then query @ [Order ob (ascending opts \<noteq> Some False)]
                 else query
             | None \<Rightarrow> query))
   = (case rangeCalls opts of
        Inl e \<Rightarrow> Inl e
      | Inr rc \<Rightarrow> Inr (query @ rc @ orderCalls opts))"
  by (simp add: rangeCalls_def orderCalls_def split: sum.splits option.splits prod.splits)

lemma select_calls:
  "select tableName columns filters opts =
     (case rangeCalls opts of
        Inl e \<Rightarrow> Inl e
      | Inr rc \<Rightarrow>
          Inr ([From tableName, Select columns] @ eqCalls (\<lambda>key. True) filters
                 @ rc @ orderCalls opts))"
  by (simp only: select_def Let_def foldl_eqCalls_all pagination_block append_assoc)

lemma selectWithFilter_calls:
  "selectWithFilter tableName columns filterObject opts =
     (case applyFilter [From tableName, Select columns] filterObject of
        Inl e \<Rightarrow> Inl e
      | Inr query \<Rightarrow>
          (case rangeCalls opts of
             Inl e \<Rightarrow> Inl e
           | Inr rc \<Rightarrow> Inr (query @ rc @ orderCalls opts)))"
proof -
  have "(if truthy filterObject
         then applyFilter [From tableName, Select columns] filterObject
         else Inr [From tableName, Select columns])
      = applyFilter [From tableName, Select columns] filterObject"
    by (simp add: applyFilter_falsy)
  then show ?thesis
    by (simp only: selectWithFilter_def pagination_block)
qed

lemma executeView_calls:
  assumes "join_definition vd = j0 # rest"
    and "applyJoins [From (from_table j0), SelectAll] (j0 # rest) = Inr base"
  shows "executeView vd filters opts =
           (case rangeCalls opts of
              Inl e \<Rightarrow> Inl e
            | Inr rc \<Rightarrow>
                Inr (base @ eqCalls (\<lambda>key. key \<in> set (allowedFilters vd)) filters
                       @ rc @ orderCalls opts))"
proof -
  from assms have "executeView vd filters opts =
      (let query = foldl (\<lambda>query (key, value).
                      if key \<in> set (allowedFilters vd) \<and> value \<noteq> JUndefined \<and> value \<noteq> JNull
                      then query @ [Eq (JStr key) value] else query) base filters
       in case (if truthy (page opts) \<and> truthy (pageSize opts) then
                  (case rangeBounds (page opts) (pageSize opts) of
                     Inl e \<Rightarrow> Inl e
                   | Inr (from, to) \<Rightarrow> Inr (query @ [Range from to]))
                else Inr query) of
            Inl e \<Rightarrow> Inl e
          | Inr query \<Rightarrow>
              Inr (case orderBy opts of
                     Some ob \<Rightarrow>
                       if ob \<noteq> [] then query @ [Order ob (ascending opts \<noteq> Some False)]
                       else query
                   | None \<Rightarrow> query))"
    by (simp add: executeView_def del: applyJoins.simps)
  then show ?thesis
    by (simp only: Let_def foldl_eqCalls pagination_block append_assoc)
qed

lemma executeView_Inr:
  assumes "executeView vd filters opts = Inr q"
  obtains j0 rest base rc where "join_definition vd = j0 # rest"
    and "applyJoins [From (from_table j0), SelectAll] (j0 # rest) = Inr base"
    and "rangeCalls opts = Inr rc"
    and "q = base @ eqCalls (\<lambda>key. key \<in> set (allowedFilters vd)) filters @ rc @ orderCalls opts"
proof (cases "join_definition vd")
  case Nil
  with assms show ?thesis by (simp add: executeView_def)
next
  case (Cons j0 rest)
  show ?thesis
  proof (cases "applyJoins [From (from_table j0), SelectAll] (j0 # rest)")
    case (Inl e)
    with Cons assms show ?thesis
      by (simp add: executeView_def del: applyJoins.simps)
  next
    case (Inr base)
    from assms executeView_calls [OF Cons Inr, of filters opts] that [OF Cons Inr]
    show ?thesis
      by (cases "rangeCalls opts") simp_all
  qed
qed

lemma applyJoins_calls:
  "applyJoins q js = Inr q' \<Longrightarrow>
     filter isEq q' = filter isEq q \<and> filter isRange q' = filter isRange q"
proof (induction js arbitrary: q)
  case Nil
  then show ?case by simp
next
  case (Cons j js)
  from Cons.prems show ?case
    by (auto simp add: Let_def split: if_splits dest!: Cons.IH)
qed

lemma eqCalls_isEq: "filter isEq (eqCalls allowed filters) = eqCalls allowed filters"
  by (induction filters) (auto simp add: eqCalls_def)

lemma eqCalls_isRange: "filter isRange (eqCalls allowed filters) = []"
  by (induction filters) (auto simp add: eqCalls_def)

lemma rangeCalls_isEq: "rangeCalls opts = Inr rc \<Longrightarrow> filter isEq rc = []"
  by (auto simp add: rangeCalls_def split: if_splits sum.splits prod.splits)

lemma orderCalls_isEq: "filter isEq (orderCalls opts) = []"
  by (simp add: orderCalls_def split: option.splits)

lemma eqCalls_skip:
  "v = JNull \<or> v = JUndefined \<Longrightarrow>
     eqCalls allowed (pre @ (k, v) # post) = eqCalls allowed (pre @ post)"
  by (auto simp add: eqCalls_def)

lemma rangeCalls_no_options: "rangeCalls no_options = Inr []"
  by (simp add: rangeCalls_def no_options_def)

lemma orderCalls_no_options: "orderCalls no_options = []"
  by (simp add: orderCalls_def no_options_def)

lemma executeView_isEq:
  assumes "executeView vd filters opts = Inr q"
  shows "filter isEq q = eqCalls (\<lambda>key. key \<in> set (allowedFilters vd)) filters"
proof -
  from assms obtain j0 rest base rc where j: "join_definition vd = j0 # rest"
    and base: "applyJoins [From (from_table j0), SelectAll] (j0 # rest) = Inr base"
    and rc: "rangeCalls opts = Inr rc"
    and q: "q = base @ eqCalls (\<lambda>key. key \<in> set (allowedFilters vd)) filters @ rc
              @ orderCalls opts"
    by (rule executeView_Inr)
  from applyJoins_calls [OF base] have "filter isEq base = []"
    by simp
  with q rangeCalls_isEq [OF rc] show ?thesis
    by (simp add: eqCalls_isEq orderCalls_isEq)
qed

lemma executeView_error:
  "(executeView vd filters opts = Inl e) = (executeView vd [] opts = Inl e)"
proof (cases "join_definition vd")
  case Nil
  then show ?thesis by (simp add: executeView_def)
next
  case (Cons j0 rest)
  show ?thesis
  proof (cases "applyJoins [From (from_table j0), SelectAll] (j0 # rest)")
    case (Inl e')
    with Cons show ?thesis
      by (simp add: executeView_def del: applyJoins.simps)
  next
    case (Inr base)
    show ?thesis
      by (cases "rangeCalls opts") (simp_all add: executeView_calls [OF Cons Inr])
  qed
qed

lemma scenario_view_joins:
  "join_definition scenario_view =
     [\<lparr>from_table = ''users'', from_field = ''id'', joinType = ''left'',
       to_table = ''tasks'', to_field = ''assigned_to''\<rparr>] \<and>
   applyJoins [From ''users'', SelectAll] (join_definition scenario_view)
     = Inr [From ''users'', SelectAll, Select ''*, tasks(*)'', On ''users.id=tasks.assigned_to''] \<and>
   allowedFilters scenario_view = [''tasks.status'']"
  by (simp add: scenario_view_def allowedFilters_def case_consts)

lemma scenario_view_calls:
  "executeView scenario_view filters opts =
     (case rangeCalls opts of
        Inl e \<Rightarrow> Inl e
      | Inr rc \<Rightarrow>
          Inr ([From ''users'', SelectAll, Select ''*, tasks(*)'',
                On ''users.id=tasks.assigned_to'']
               @ eqCalls (\<lambda>key. key \<in> set [''tasks.status'']) filters
               @ rc @ orderCalls opts))"
proof -
  let ?j = "\<lparr>from_table = ''users'', from_field = ''id'', joinType = ''left'',
       to_table = ''tasks'', to_field = ''assigned_to''\<rparr>"
  have j: "join_definition scenario_view = ?j # []"
    by (simp add: scenario_view_def)
  have base: "applyJoins [From (from_table ?j), SelectAll] (?j # [])
      = Inr [From ''users'', SelectAll, Select ''*, tasks(*)'', On ''users.id=tasks.assigned_to'']"
    by (simp add: case_consts)
  from executeView_calls [OF j base, of filters opts] show ?thesis
    by (simp only: scenario_view_joins)
qed

lemma executeView_skip:
  assumes "v = JNull \<or> v = JUndefined"
  shows "executeView vd (pre @ (k, v) # post) opts = executeView vd (pre @ post) opts"
proof (cases "join_definition vd")
  case Nil
  then show ?thesis by (simp add: executeView_def)
next
  case (Cons j0 rest)
  show ?thesis
  proof (cases "applyJoins [From (from_table j0), SelectAll] (j0 # rest)")
    case (Inl e)
    with Cons show ?thesis
      by (simp add: executeView_def del: applyJoins.simps)
  next
    case (Inr base)
    from executeView_calls [OF Cons Inr] show ?thesis
      by (simp add: eqCalls_skip [OF assms] split: sum.splits)
  qed
qed

text \<open>
  C2, as stated, fails: the allowlist is matched against the whole key.  With
  allowed_filters = ['tasks.status'] and caller filters {status: 'done', secret: 'x'}
  no equality condition is applied at all: status is dropped like secret.
\<close>

theorem view_allowlist_counterexample:
  "executeView scenario_view [(''status'', JStr ''done''), (''secret'', JStr ''x'')] no_options
     = Inr [From ''users'', SelectAll, Select ''*, tasks(*)'', On ''users.id=tasks.assigned_to'']"
  by (simp add: scenario_view_calls eqCalls_def rangeCalls_no_options orderCalls_no_options)

text \<open>
  C2, amended.  The equality conditions of a view's query are, in the order of the
  caller's filters map, those of the entries whose key is an element of
  allowed_filters and whose value is neither null nor undefined; every other entry is
  dropped without an error.  With allowed_filters = ['tasks.status'] and caller
  filters {'tasks.status': 'done', secret: 'x'} the equality condition on
  tasks.status is applied and secret is dropped.
\<close>

theorem view_allowlist_filters:
  "(executeView vd filters opts = Inr q \<longrightarrow>
      filter isEq q =
        map (\<lambda>(key, value). Eq (JStr key) value)
          (filter (\<lambda>(key, value).
             key \<in> set (allowedFilters vd) \<and> value \<noteq> JUndefined \<and> value \<noteq> JNull) filters)) \<and>
   (executeView vd filters opts = Inl e) = (executeView vd [] opts = Inl e) \<and>
   executeView scenario_view [(''tasks.status'', JStr ''done''), (''secret'', JStr ''x'')]
       no_options
     = Inr [From ''users'', SelectAll, Select ''*, tasks(*)'', On ''users.id=tasks.assigned_to'',
            Eq (JStr ''tasks.status'') (JStr ''done'')]"
proof (intro conjI impI)
  assume "executeView vd filters opts = Inr q"
  then show "filter isEq q =
        map (\<lambda>(key, value). Eq (JStr key) value)
          (filter (\<lambda>(key, value).
             key \<in> set (allowedFilters vd) \<and> value \<noteq> JUndefined \<and> value \<noteq> JNull) filters)"
    by (simp add: executeView_isEq eqCalls_def)
next
  show "(executeView vd filters opts = Inl e) = (executeView vd [] opts = Inl e)"
    by (rule executeView_error)
next
  show "executeView scenario_view [(''tasks.status'', JStr ''done''), (''secret'', JStr ''x'')]
       no_options
     = Inr [From ''users'', SelectAll, Select ''*, tasks(*)'', On ''users.id=tasks.assigned_to'',
            Eq (JStr ''tasks.status'') (JStr ''done'')]"
    by (simp add: scenario_view_calls eqCalls_def rangeCalls_no_options orderCalls_no_options)
qed

theorem view_allowlist_filters_witness:
  "executeView scenario_view
       [(''tasks.status'', JStr ''done''), (''users.role'', JStr ''admin''),
        (''tasks.status'', JNull)] no_options
     = Inr [From ''users'', SelectAll, Select ''*, tasks(*)'', On ''users.id=tasks.assigned_to'',
            Eq (JStr ''tasks.status'') (JStr ''done'')] \<and>
   filter isEq [From ''users'', SelectAll, Select ''*, tasks(*)'',
                On ''users.id=tasks.assigned_to'', Eq (JStr ''tasks.status'') (JStr ''done'')]
     = [Eq (JStr ''tasks.status'') (JStr ''done'')]"
proof -
  let ?fs = "[(''tasks.status'', JStr ''done''), (''users.role'', JStr ''admin''),
        (''tasks.status'', JNull)]"
  let ?q = "[From ''users'', SelectAll, Select ''*, tasks(*)'', On ''users.id=tasks.assigned_to'',
            Eq (JStr ''tasks.status'') (JStr ''done'')]"
  have run: "executeView scenario_view ?fs no_options = Inr ?q"
    by (simp add: scenario_view_calls eqCalls_def rangeCalls_no_options orderCalls_no_options)
  from view_allowlist_filters [of scenario_view ?fs no_options ?q, THEN conjunct1] run
  have "filter isEq ?q =
        map (\<lambda>(key, value). Eq (JStr key) value)
          (filter (\<lambda>(key, value).
             key \<in> set (allowedFilters scenario_view) \<and> value \<noteq> JUndefined \<and> value \<noteq> JNull) ?fs)"
    by (rule mp)
  then have "filter isEq ?q = [Eq (JStr ''tasks.status'') (JStr ''done'')]"
    by (simp add: scenario_view_joins)
  with run show ?thesis by simp
qed

text \<open>
  C6.  selectWithFilter on the single condition status = active builds the query that
  select builds from the equality map with the one entry status: active, on the same
  table, columns and options.
\<close>

theorem selectWithFilter_single_equality:
  "selectWithFilter tableName columns
      (Condition (JStr ''status'') (JStr ''='') (JStr ''active'')) opts
   = select tableName columns [(''status'', JStr ''active'')] opts"
proof -
  let ?c = "Condition (JStr ''status'') (JStr ''='') (JStr ''active'')"
  have "applyFilter q ?c = Inr (q @ [Eq (JStr ''status'') (JStr ''active'')])" for q
    by (simp add: applyFilter_isCondition isCondition_Condition applyCondition_def
        getProp_Condition case_consts)
  then show ?thesis
    by (simp add: selectWithFilter_calls select_calls eqCalls_def split: sum.splits)
qed

text \<open>
  C10.  In view execution an entry of the caller's filters map whose value is null or
  undefined adds no equality condition, also when its key is in allowed_filters: the
  query is the one built without the entry.  The flat equality map of select skips
  such entries in the same way.
\<close>

theorem null_filter_values_skipped:
  "v = JNull \<or> v = JUndefined \<longrightarrow>
     executeView vd (pre @ (k, v) # post) opts = executeView vd (pre @ post) opts \<and>
     select tableName columns (pre @ (k, v) # post) opts
       = select tableName columns (pre @ post) opts"
proof
  assume v: "v = JNull \<or> v = JUndefined"
  then have "executeView vd (pre @ (k, v) # post) opts = executeView vd (pre @ post) opts"
    by (rule executeView_skip)
  moreover have "select tableName columns (pre @ (k, v) # post) opts
       = select tableName columns (pre @ post) opts"
    by (simp add: select_calls eqCalls_skip [OF v] split: sum.splits)
  ultimately show "executeView vd (pre @ (k, v) # post) opts = executeView vd (pre @ post) opts \<and>
     select tableName columns (pre @ (k, v) # post) opts
       = select tableName columns (pre @ post) opts" ..
qed

theorem null_filter_values_skipped_witness:
  "''tasks.status'' \<in> set (allowedFilters scenario_view) \<and>
   executeView scenario_view [(''tasks.status'', JNull)] no_options
     = Inr [From ''users'', SelectAll, Select ''*, tasks(*)'', On ''users.id=tasks.assigned_to''] \<and>
   select ''tasks'' ''*'' [(''tasks.status'', JNull)] no_options
     = Inr [From ''tasks'', Select ''*'']"
proof -
  have "executeView scenario_view [] no_options
     = Inr [From ''users'', SelectAll, Select ''*, tasks(*)'', On ''users.id=tasks.assigned_to'']"
    by (simp add: scenario_view_calls eqCalls_def rangeCalls_no_options orderCalls_no_options)
  moreover have "select ''tasks'' ''*'' [] no_options = Inr [From ''tasks'', Select ''*'']"
    by (simp add: select_calls eqCalls_def rangeCalls_no_options orderCalls_no_options)
  ultimately show ?thesis
    using null_filter_values_skipped
      [where v = JNull and vd = scenario_view and pre = "[]" and k = "''tasks.status''"
        and post = "[]" and opts = no_options and tableName = "''tasks''" and columns = "''*''"]
    by (simp add: scenario_view_joins)
qed

section \<open>Pagination\<close>

lemma orderCalls_isRange: "filter isRange (orderCalls opts) = []"
  by (simp add: orderCalls_def split: option.splits)

lemma rangeCalls_isRange: "rangeCalls opts = Inr rc \<Longrightarrow> filter isRange rc = rc"
  by (auto simp add: rangeCalls_def split: if_splits sum.splits prod.splits)

lemma applyCondition_isRange:
  "applyCondition q c = Inr q' \<Longrightarrow> filter isRange q' = filter isRange q"
  by (auto simp add: applyCondition_def Let_def split: sum.splits if_splits)

lemma applyFilter_invalid:
  assumes "truthy f" and "\<not> isCondition f" and "\<not> isGroup f"
  shows "applyFilter q f = Inl (AppError ''Invalid filter structure'' 400 ''Filter Parser'')"
proof (cases "truthy (getProp f ''logic'') \<and> truthy (getProp f ''filters'')")
  case False
  with assms show ?thesis
    by (subst applyFilter.simps(1)) (auto simp add: isCondition_def)
next
  case True
  with assms have "\<not> isArray (getProp f ''filters'')"
    by (cases "getProp f ''filters''") (simp_all add: isGroup_def)
  with assms True show ?thesis
    by (subst applyFilter.simps(1))
      (cases "getProp f ''filters''"; auto simp add: isCondition_def)
qed

lemma applyFilter_isRange:
  "applyFilter q f = Inr q' \<Longrightarrow> filter isRange q' = filter isRange q"
  "applyFilter_each q fs = Inr q' \<Longrightarrow> filter isRange q' = filter isRange q"
proof (induction q f and q fs arbitrary: q' and q' rule: applyFilter_applyFilter_each.induct)
  case (1 query filter')
  note IH = "1.IH"
  show ?case
  proof (cases "truthy filter'")
    case False
    with "1.prems" show ?thesis
      by (simp add: applyFilter_falsy)
  next
    case t: True
    then have t': "\<not> \<not> truthy filter'" by simp
    show ?thesis
    proof (cases "isCondition filter'")
      case True
      with "1.prems" show ?thesis
        by (simp add: applyFilter_isCondition applyCondition_isRange)
    next
      case nc: False
      with t have nc': "\<not> (truthy (getProp filter' ''field'') \<and>
          truthy (getProp filter' ''operator''))"
        by (simp add: isCondition_def)
      show ?thesis
      proof (cases "isGroup filter'")
        case False
        with t nc have "applyFilter query filter'
            = Inl (AppError ''Invalid filter structure'' 400 ''Filter Parser'')"
          by (rule applyFilter_invalid)
        with "1.prems" show ?thesis by simp
      next
        case g: True
        then obtain fs where fs: "getProp filter' ''filters'' = JArr fs"
          by (auto simp add: isGroup_def split: jsval.splits)
        from g fs have lg: "truthy (getProp filter' ''logic'') \<and>
            truthy (getProp filter' ''filters'')"
          by (simp add: isGroup_def)
        note eq = applyFilter_isGroup [OF g fs, of query]
        show ?thesis
        proof (cases fs)
          case Nil
          with eq "1.prems" show ?thesis by simp
        next
          case outer: (Cons a rest)
          show ?thesis
          proof (cases rest)
            case Nil
            with outer eq "1.prems" have "applyFilter query a = Inr q'" by simp
            with IH(1) [OF t' nc' lg fs outer Nil] show ?thesis .
          next
            case inner: (Cons b rest')
            show ?thesis
            proof (cases "js_toUpperCase (getProp filter' ''logic'')")
              case (Inl e)
              with outer inner eq "1.prems" show ?thesis by simp
            next
              case (Inr u)
              show ?thesis
              proof (cases "u = ''AND''")
                case True
                with Inr outer inner eq "1.prems" have "applyFilter_each query fs = Inr q'"
                  by simp
                with IH(2) [OF t' nc' lg fs outer inner Inr True] show ?thesis .
              next
                case False
                with Inr outer inner eq "1.prems" show ?thesis
                  by (auto split: if_splits sum.splits)
              qed
            qed
          qed
        qed
      qed
    qed
  qed
next
  case (2 resultQuery)
  then show ?case by simp
next
  case (3 resultQuery subFilter rest)
  from "3.prems" obtain b where b: "applyFilter resultQuery subFilter = Inr b"
    and r: "applyFilter_each b rest = Inr q'"
    by (auto split: sum.splits)
  from "3.IH"(1) [OF b] "3.IH"(2) [OF b r] show ?case by simp
qed

lemma rangeBounds_numbers:
  assumes "0 < p" and "0 < ps" and "p * ps \<le> 9007199254740991"
  shows "rangeBounds (JNum p) (JNum ps) = Inr ((p - 1) * ps, p * ps - 1)"
proof -
  from assms have a: "p \<le> p * ps"
    using mult_left_mono [of 1 ps p] by simp
  from assms have b: "ps \<le> p * ps"
    using mult_right_mono [of 1 p ps] by simp
  from assms have c: "0 \<le> (p - 1) * ps"
    by simp
  have d: "(p - 1) * ps + ps = p * ps"
    by (simp add: algebra_simps)
  have "safeInteger p" "safeInteger (p - 1)" "safeInteger ps"
    "safeInteger ((p - 1) * ps)" "safeInteger ((p - 1) * ps + ps)"
    "safeInteger ((p - 1) * ps + ps - 1)" "safeInteger 1"
    unfolding safeInteger_def using assms a b c d by linarith+
  with assms show ?thesis
    by (simp add: rangeBounds_def js_minus_def js_times_def js_plus_def safeNumber_def d)
qed

text \<open>
  On numbers the two lines compute the interval [(page - 1) * pageSize,
  page * pageSize - 1]: when page and pageSize are positive integers whose product is
  a safe integer, each of the three queries holds exactly that one range call, and
  none when page or pageSize is missing.
\<close>

lemma pagination_range_numbers:
  assumes "page opts = JNum p" and "pageSize opts = JNum ps"
    and "0 < p" and "0 < ps" and "p * ps \<le> 9007199254740991"
  shows "rangeCalls opts = Inr [Range ((p - 1) * ps) (p * ps - 1)]"
    and "\<exists>q. select tableName columns filters opts = Inr q \<and>
           filter isRange q = [Range ((p - 1) * ps) (p * ps - 1)]"
    and "selectWithFilter tableName columns filterObject opts = Inr q1 \<Longrightarrow>
           filter isRange q1 = [Range ((p - 1) * ps) (p * ps - 1)]"
    and "executeView vd filters opts = Inr q2 \<Longrightarrow>
           filter isRange q2 = [Range ((p - 1) * ps) (p * ps - 1)]"
proof -
  from assms show rc: "rangeCalls opts = Inr [Range ((p - 1) * ps) (p * ps - 1)]"
    by (simp add: rangeCalls_def rangeBounds_numbers)
  then show "\<exists>q. select tableName columns filters opts = Inr q \<and>
           filter isRange q = [Range ((p - 1) * ps) (p * ps - 1)]"
    by (simp add: select_calls eqCalls_isRange orderCalls_isRange)
  {
    assume "selectWithFilter tableName columns filterObject opts = Inr q1"
    with rc obtain query
      where query: "applyFilter [From tableName, Select columns] filterObject = Inr query"
      and q1: "q1 = query @ [Range ((p - 1) * ps) (p * ps - 1)] @ orderCalls opts"
      by (auto simp add: selectWithFilter_calls split: sum.splits)
    from applyFilter_isRange(1) [OF query] have "filter isRange query = []"
      by simp
    with q1 show "filter isRange q1 = [Range ((p - 1) * ps) (p * ps - 1)]"
      by (simp add: orderCalls_isRange)
  }
  {
    assume "executeView vd filters opts = Inr q2"
    then obtain j0 rest base rc' where "join_definition vd = j0 # rest"
      and base: "applyJoins [From (from_table j0), SelectAll] (j0 # rest) = Inr base"
      and rc': "rangeCalls opts = Inr rc'"
      and q2: "q2 = base @ eqCalls (\<lambda>key. key \<in> set (allowedFilters vd)) filters @ rc'
                 @ orderCalls opts"
      by (rule executeView_Inr)
    from applyJoins_calls [OF base] have "filter isRange base = []"
      by simp
    with q2 rc rc' show "filter isRange q2 = [Range ((p - 1) * ps) (p * ps - 1)]"
      by (simp add: eqCalls_isRange orderCalls_isRange)
  }
qed

lemma pagination_absent:
  assumes "page opts = JUndefined \<or> pageSize opts = JUndefined"
  shows "rangeCalls opts = Inr []"
  using assms by (auto simp add: rangeCalls_def)

text \<open>
  C3.  The code does not keep the claim on the options its caller passes.  getAll of
  data-controller.js hands on page and pageSize as the strings of the URL query.  For
  page=2 and pageSize=10 the lower bound is 10, as claimed, but
  \<^verbatim>\<open>from + options.pageSize\<close> then concatenates 10 and '10', so the upper bound is
  1010 - 1 = 1009 where the claim has 19.
\<close>

theorem pagination_query_strings:
  "select tableName columns []
       \<lparr>page = JStr ''2'', pageSize = JStr ''10'', orderBy = None, ascending = Some True\<rparr>
     = Inr [From tableName, Select columns, Range 10 1009] \<and>
   selectWithFilter tableName columns
       (Condition (JStr ''status'') (JStr ''='') (JStr ''active''))
       \<lparr>page = JStr ''2'', pageSize = JStr ''10'', orderBy = None, ascending = Some True\<rparr>
     = Inr [From tableName, Select columns, Eq (JStr ''status'') (JStr ''active''),
            Range 10 1009]"
proof -
  let ?o = "\<lparr>page = JStr ''2'', pageSize = JStr ''10'', orderBy = None, ascending = Some True\<rparr>"
  have b: "rangeBounds (JStr ''2'') (JStr ''10'') = Inr (10, 1009)"
    by (simp add: rangeBounds_def js_minus_def js_times_def js_plus_def stringToNumber_def
        safeNumber_def safeInteger_def num_toString_def)
  then have rc: "rangeCalls ?o = Inr [Range 10 1009]"
    by (simp add: rangeCalls_def)
  have c: "applyFilter q (Condition (JStr ''status'') (JStr ''='') (JStr ''active''))
      = Inr (q @ [Eq (JStr ''status'') (JStr ''active'')])" for q
    by (simp add: applyFilter_isCondition isCondition_Condition applyCondition_def
        getProp_Condition case_consts)
  show ?thesis
    by (simp add: select_calls selectWithFilter_calls rc c eqCalls_def orderCalls_def)
qed

section \<open>Value coercion and the two encodings\<close>















end
